theory Spec2Isabelle
  imports Main "HOL-Library.Multiset"
begin

section \<open>The deep-research pipeline: data model\<close>

text \<open>
  The two copies of the research manager
  (\<^verbatim>\<open>2_openai/deep_research/research_manager.py\<close> and
  \<^verbatim>\<open>training/deep_search/research_manager.py\<close>) have the same control flow and differ
  in their string literals only. Every definition below takes the copy as its first argument.
\<close>

datatype variant = Deep_research | Training

text \<open>
  A raised Python exception. \<^verbatim>\<open>except Exception\<close> catches the instances of class
  \<^verbatim>\<open>Exception\<close>; an exception that derives from \<^verbatim>\<open>BaseException\<close> only
  (\<^verbatim>\<open>asyncio.CancelledError\<close>, \<^verbatim>\<open>KeyboardInterrupt\<close>, \<^verbatim>\<open>SystemExit\<close>) passes through
  such a handler. The string is the exception's text.
\<close>

datatype exn = Exception string | BaseOnly string

text \<open>The pydantic models of \<^verbatim>\<open>planner_agent.py\<close> and \<^verbatim>\<open>writer_agent.py\<close>.\<close>

record WebSearchItem =
  reason :: string
  query :: string

record WebSearchPlan =
  searches :: "WebSearchItem list"

record ReportData =
  short_summary :: string
  markdown_report :: string
  follow_up_questions :: "string list"

text \<open>
  The external collaborators, which the source reaches through \<^verbatim>\<open>Runner.run\<close>: each takes
  the prompt it is given and either raises or returns its \<^verbatim>\<open>final_output\<close>. The SDK
  validates the output of an agent with an \<^verbatim>\<open>output_type\<close> against that type, so the
  planner and the writer return a value of the model's type or raise. The search agent is
  called once per task and may answer differently each time, so it also takes the index of the
  task in submission order; its result is \<^verbatim>\<open>str(result.final_output)\<close>.
  \<^verbatim>\<open>repr_list\<close> is Python's formatting of a list of strings inside an f-string.
\<close>

record services =
  gen_trace_id :: string
  planner_agent :: "string \<Rightarrow> exn + WebSearchPlan"
  search_agent :: "nat \<Rightarrow> string \<Rightarrow> exn + string"
  writer_agent :: "string \<Rightarrow> exn + ReportData"
  email_agent :: "string \<Rightarrow> exn + unit"
  repr_list :: "string list \<Rightarrow> string"

text \<open>
  What a run does, in order: the elements it yields on the progress stream, the external
  calls it issues, and the results the fan-out loop receives (\<open>Completed i r\<close>: the loop's
  \<^verbatim>\<open>await task\<close> returned \<open>r\<close> for the task of item \<open>i\<close>). Printing to standard output is
  not part of the model.
\<close>

datatype event =
    Yield string
  | RunPlanner string
  | RunSearch nat string
  | Completed nat "string option"
  | RunWriter string
  | RunEmail string

section \<open>The string literals of the two copies\<close>

definition trace_line :: "string \<Rightarrow> string" where
  "trace_line trace_id = ''View trace: https://platform.openai.com/traces/trace?trace_id='' @ trace_id"

definition planner_input :: "string \<Rightarrow> string" where
  "planner_input q = ''Query: '' @ q"

fun search_input :: "variant \<Rightarrow> WebSearchItem \<Rightarrow> string" where
  "search_input Deep_research item =
     ''Search term: '' @ query item @ [CHR 0x0A] @ ''Reason for searching: '' @ reason item"
| "search_input Training item =
     ''Termine di ricerca'' @ query item @ [CHR 0x0A] @ ''Motivazione della ricerca'' @ reason item"

fun writer_input :: "variant \<Rightarrow> services \<Rightarrow> string \<Rightarrow> string list \<Rightarrow> string" where
  "writer_input Deep_research s q search_results =
     ''Original query: '' @ q @ [CHR 0x0A] @ ''Summarized search results: ''
       @ repr_list s search_results"
| "writer_input Training s q search_results =
     ''Chiave di ricerca '' @ q @ '' riassunta nei risultati: '' @ repr_list s search_results"

fun planned_msg :: "variant \<Rightarrow> string" where
  "planned_msg Deep_research = ''Searches planned, starting to search...''"
| "planned_msg Training = ''Ricerca pianificata, inizio la ricerca...''"

fun searched_msg :: "variant \<Rightarrow> string" where
  "searched_msg Deep_research = ''Searches complete, writing report...''"
| "searched_msg Training = ''Ricerca completata, inizio la stesura del report...''"

fun written_msg :: "variant \<Rightarrow> string" where
  "written_msg Deep_research = ''Report written, sending email...''"
| "written_msg Training = ''Ho completato il report, preparo la mail...''"

fun sent_msg :: "variant \<Rightarrow> string" where
  "sent_msg Deep_research = ''Email sent, research complete''"
| "sent_msg Training = ''Ho iviato la mail''"

section \<open>The methods of ResearchManager\<close>

text \<open>
  Every method returns the events it caused and then either the exception it raised
  (\<open>Inl\<close>) or its return value (\<open>Inr\<close>).
\<close>

definition plan_searches :: "variant \<Rightarrow> services \<Rightarrow> string \<Rightarrow> event list \<times> (exn + WebSearchPlan)" where
  "plan_searches v s q =
     ([RunPlanner (planner_input q)],
      (case planner_agent s (planner_input q) of
         Inl e \<Rightarrow> Inl e
       | Inr final_output \<Rightarrow> Inr final_output))"

text \<open>
  \<^verbatim>\<open>search\<close>: the call sits in \<^verbatim>\<open>try\<close>, and \<^verbatim>\<open>except Exception\<close> turns an instance of
  \<^verbatim>\<open>Exception\<close> into the return value \<^verbatim>\<open>None\<close>.
\<close>

definition search :: "variant \<Rightarrow> services \<Rightarrow> nat \<Rightarrow> WebSearchItem \<Rightarrow> event list \<times> (exn + string option)" where
  "search v s i item =
     (let input = search_input v item in
      ([RunSearch i input],
       (case search_agent s i input of
          Inr final_output \<Rightarrow> Inr (Some final_output)
        | Inl (Exception msg) \<Rightarrow> Inr None
        | Inl (BaseOnly msg) \<Rightarrow> Inl (BaseOnly msg))))"

text \<open>
  The loop \<^verbatim>\<open>for task in asyncio.as_completed(tasks)\<close>. \<open>tasks\<close> holds the outcome of each
  task, by index of submission; the second argument is the order in which the tasks complete,
  as indices into \<open>tasks\<close>. \<^verbatim>\<open>as_completed\<close> hands out every task once, so a completion order
  is a permutation of \<open>[0..<length tasks]\<close>; an index that names no task is passed over.
  \<^verbatim>\<open>await task\<close> raises what the task raised.
\<close>

fun as_completed_loop ::
  "(exn + string option) list \<Rightarrow> nat list \<Rightarrow> string list \<Rightarrow> event list
     \<Rightarrow> event list \<times> (exn + string list)" where
  "as_completed_loop tasks [] results log = (log, Inr results)"
| "as_completed_loop tasks (i # order) results log =
     (if i < length tasks then
        (case tasks ! i of
           Inl e \<Rightarrow> (log, Inl e)
         | Inr None \<Rightarrow> as_completed_loop tasks order results (log @ [Completed i None])
         | Inr (Some result) \<Rightarrow>
             as_completed_loop tasks order (results @ [result]) (log @ [Completed i (Some result)]))
      else as_completed_loop tasks order results log)"

text \<open>
  \<^verbatim>\<open>perform_searches\<close>: one task per item of the plan, created in the order of the plan;
  all of them are started before the loop receives its first result.
\<close>

definition create_tasks :: "variant \<Rightarrow> services \<Rightarrow> WebSearchPlan
     \<Rightarrow> (event list \<times> (exn + string option)) list" where
  "create_tasks v s search_plan =
     map (\<lambda>(i, item). search v s i item) (enumerate 0 (searches search_plan))"

definition perform_searches :: "variant \<Rightarrow> services \<Rightarrow> nat list \<Rightarrow> WebSearchPlan
     \<Rightarrow> event list \<times> (exn + string list)" where
  "perform_searches v s order search_plan =
     (let tasks = create_tasks v s search_plan in
      as_completed_loop (map snd tasks) order [] (concat (map fst tasks)))"

definition write_report :: "variant \<Rightarrow> services \<Rightarrow> string \<Rightarrow> string list
     \<Rightarrow> event list \<times> (exn + ReportData)" where
  "write_report v s q search_results =
     (let input = writer_input v s q search_results in
      ([RunWriter input], writer_agent s input))"

definition send_email :: "services \<Rightarrow> ReportData \<Rightarrow> event list \<times> (exn + ReportData)" where
  "send_email s report =
     ([RunEmail (markdown_report report)],
      (case email_agent s (markdown_report report) of
         Inl e \<Rightarrow> Inl e
       | Inr u \<Rightarrow> Inr report))"

text \<open>
  \<^verbatim>\<open>run\<close> (\<^verbatim>\<open>Run\<close> in the training copy), consumed to its end: the events of the run, and
  the exception that ended it, if one did. An exception of a stage is not caught by the
  generator: it reaches the consumer in place of the next element. The tracing context
  \<^verbatim>\<open>with trace(...)\<close> only records the run and is left out.
\<close>

definition run :: "variant \<Rightarrow> services \<Rightarrow> nat list \<Rightarrow> string \<Rightarrow> event list \<times> exn option" where
  "run v s order q =
     (let log0 = [Yield (trace_line (gen_trace_id s))];
          (l1, r1) = plan_searches v s q in
      case r1 of
        Inl e \<Rightarrow> (log0 @ l1, Some e)
      | Inr search_plan \<Rightarrow>
          (let log1 = log0 @ l1 @ [Yield (planned_msg v)];
               (l2, r2) = perform_searches v s order search_plan in
           case r2 of
             Inl e \<Rightarrow> (log1 @ l2, Some e)
           | Inr search_results \<Rightarrow>
               (let log2 = log1 @ l2 @ [Yield (searched_msg v)];
                    (l3, r3) = write_report v s q search_results in
                case r3 of
                  Inl e \<Rightarrow> (log2 @ l3, Some e)
                | Inr report \<Rightarrow>
                    (let log3 = log2 @ l3 @ [Yield (written_msg v)];
                         (l4, r4) = send_email s report in
                     case r4 of
                       Inl e \<Rightarrow> (log3 @ l4, Some e)
                     | Inr report' \<Rightarrow>
                         (log3 @ l4 @ [Yield (sent_msg v), Yield (markdown_report report)],
                          None)))))"

text \<open>The progress stream: the elements a run yields, in order.\<close>

fun yields :: "event list \<Rightarrow> string list" where
  "yields [] = []"
| "yields (Yield x # evs) = x # yields evs"
| "yields (ev # evs) = yields evs"

text \<open>
  The result of one unit of work, as \<^verbatim>\<open>perform_searches\<close> sees it: a failure is the return
  value \<^verbatim>\<open>None\<close>, a success is a text.
\<close>

fun failed :: "exn + string option \<Rightarrow> bool" where
  "failed (Inr None) = True"
| "failed r = False"

fun succeeded :: "exn + string option \<Rightarrow> bool" where
  "succeeded (Inr (Some text)) = True"
| "succeeded r = False"

definition outcomes :: "variant \<Rightarrow> services \<Rightarrow> WebSearchPlan \<Rightarrow> (exn + string option) list" where
  "outcomes v s search_plan = map snd (create_tasks v s search_plan)"

text \<open>The texts of the successes in a list of results, in the order of the list.\<close>

fun texts :: "(exn + string option) list \<Rightarrow> string list" where
  "texts [] = []"
| "texts (Inr (Some text) # rs) = text # texts rs"
| "texts (r # rs) = texts rs"

section \<open>The notification tool\<close>

text \<open>
  \<^verbatim>\<open>send_mail\<close> of \<^verbatim>\<open>training/deep_search/email_agent.py\<close>. The request body that the
  SendGrid helpers build, and the response of the HTTP client; \<^verbatim>\<open>post\<close> stands for
  \<^verbatim>\<open>sg.client.mail.send.post\<close>, which raises or returns a response; building the client
  and the request body is taken not to raise. The returned dictionary is a map from keys to
  values.
\<close>

record Mail =
  from_email :: string
  to_email :: string
  subject :: string
  content_type :: string
  content_value :: string

record Response =
  status_code :: int
  body :: string

definition send_mail :: "(Mail \<Rightarrow> exn + Response) \<Rightarrow> string \<Rightarrow> string \<Rightarrow> exn + (string \<rightharpoonup> string)" where
  "send_mail post subj html_body =
     (let mail = \<lparr>from_email = ''federico.tognettigmail.com'',
                  to_email = ''federico.tognetti@gmail.com'',
                  subject = subj,
                  content_type = ''text/html'',
                  content_value = html_body\<rparr> in
      case post mail of
        Inl e \<Rightarrow> Inl e
      | Inr response \<Rightarrow> Inr [''status'' \<mapsto> ''success''])"

section \<open>Example services\<close>

definition item1 :: WebSearchItem where
  "item1 = \<lparr>reason = ''why a'', query = ''a''\<rparr>"

definition item2 :: WebSearchItem where
  "item2 = \<lparr>reason = ''why b'', query = ''b''\<rparr>"

definition item3 :: WebSearchItem where
  "item3 = \<lparr>reason = ''why c'', query = ''c''\<rparr>"

definition plan3 :: WebSearchPlan where
  "plan3 = \<lparr>searches = [item1, item2, item3]\<rparr>"

definition report1 :: ReportData where
  "report1 = \<lparr>short_summary = ''sum'', markdown_report = ''# R'', follow_up_questions = []\<rparr>"

text \<open>Three planned searches; the second one fails; everything else succeeds.\<close>

definition svc :: services where
  "svc = \<lparr>gen_trace_id = ''t1'',
          planner_agent = (\<lambda>p. Inr plan3),
          search_agent = (\<lambda>i p. if i = 1 then Inl (Exception ''timeout'')
                                else if i = 0 then Inr ''r0'' else Inr ''r2''),
          writer_agent = (\<lambda>p. Inr report1),
          email_agent = (\<lambda>p. Inr ()),
          repr_list = concat\<rparr>"

text \<open>The same services with a notification call that raises, and with searches that all fail.\<close>

definition svc_mail_down :: services where
  "svc_mail_down = svc\<lparr>email_agent := (\<lambda>p. Inl (Exception ''smtp''))\<rparr>"

definition svc_search_down :: services where
  "svc_search_down = svc\<lparr>search_agent := (\<lambda>i p. Inl (Exception ''timeout''))\<rparr>"

section \<open>The unit-of-work executor\<close>

lemma search_events: "fst (search v s i item) = [RunSearch i (search_input v item)]"
  by (simp add: search_def Let_def)

lemma search_not_caught:
  "search_agent s i (search_input v item) = Inl (BaseOnly m)
    \<Longrightarrow> snd (search v s i item) = Inl (BaseOnly m)"
  by (simp add: search_def Let_def)

lemma search_success:
  "search_agent s i (search_input v item) = Inr out
    \<Longrightarrow> snd (search v s i item) = Inr (Some out)"
  by (simp add: search_def Let_def)

text \<open>
  Claim C2, as amended. If the external unit-of-work call raises an exception that is an
  instance of \<^verbatim>\<open>Exception\<close>, \<^verbatim>\<open>search\<close> returns \<^verbatim>\<open>None\<close> and raises nothing.
\<close>

theorem search_catches_Exception:
  "search_agent s i (search_input v item) = Inl (Exception m)
    \<Longrightarrow> snd (search v s i item) = Inr None"
  by (simp add: search_def Let_def)

theorem search_catches_Exception_witness:
  "search_agent svc 1 (search_input Training item2) = Inl (Exception ''timeout'')
    \<and> snd (search Training svc 1 item2) = Inr None"
  using search_catches_Exception [of svc 1 Training item2 "''timeout''"]
  by (simp add: svc_def)

text \<open>
  Claim C2, as stated, fails: a cancellation of the task during the external call is an
  exception that \<^verbatim>\<open>except Exception\<close> does not catch, and \<^verbatim>\<open>search\<close> raises it.
\<close>

theorem search_propagates_cancellation:
  "search_agent (svc\<lparr>search_agent := (\<lambda>i p. Inl (BaseOnly ''CancelledError''))\<rparr>) 0
       (search_input Deep_research item1) = Inl (BaseOnly ''CancelledError'')
   \<and> snd (search Deep_research (svc\<lparr>search_agent := (\<lambda>i p. Inl (BaseOnly ''CancelledError''))\<rparr>) 0 item1)
       = Inl (BaseOnly ''CancelledError'')
   \<and> snd (search Deep_research (svc\<lparr>search_agent := (\<lambda>i p. Inl (BaseOnly ''CancelledError''))\<rparr>) 0 item1)
       \<noteq> Inr None"
  by (simp add: search_def Let_def svc_def)

section \<open>The fan-out loop\<close>

lemma yields_append: "yields (xs @ ys) = yields xs @ yields ys"
  by (induction xs rule: yields.induct) auto

lemma length_texts: "length (texts rs) = length (filter succeeded rs)"
  by (induction rs rule: texts.induct) auto

lemma texts_map_filter: "texts rs = map (\<lambda>r. the (projr r)) (filter succeeded rs)"
  by (induction rs rule: texts.induct) auto

lemma failed_or_succeeded_count:
  "\<forall>r\<in>set rs. failed r \<or> succeeded r
    \<Longrightarrow> length (filter succeeded rs) + length (filter failed rs) = length rs"
proof (induction rs)
  case Nil
  then show ?case by simp
next
  case (Cons r rs)
  have "failed r \<noteq> succeeded r" using Cons.prems
    by (cases r rule: failed.cases) auto
  with Cons show ?case by auto
qed

text \<open>The loop, when it returns.\<close>

lemma loop_returns:
  "as_completed_loop tasks order results log = (log', Inr rs)
    \<Longrightarrow> log' = log @ map (\<lambda>i. Completed i (projr (tasks ! i))) (filter (\<lambda>i. i < length tasks) order)
      \<and> rs = results @ texts (map (\<lambda>i. tasks ! i) (filter (\<lambda>i. i < length tasks) order))"
proof (induction tasks order results log rule: as_completed_loop.induct)
  case (1 tasks results log)
  then show ?case by simp
next
  case (2 tasks i order results log)
  show ?case
  proof (cases "i < length tasks")
    case False
    with 2 show ?thesis by simp
  next
    case True
    show ?thesis
    proof (cases "tasks ! i")
      case (Inl e)
      with True "2.prems" show ?thesis by simp
    next
      case (Inr r)
      show ?thesis
      proof (cases r)
        case None
        with True Inr 2 show ?thesis by simp
      next
        case (Some t)
        with True Inr 2 show ?thesis by simp
      qed
    qed
  qed
qed

lemma loop_total:
  "\<forall>i\<in>set order. i < length tasks \<longrightarrow> failed (tasks ! i) \<or> succeeded (tasks ! i)
    \<Longrightarrow> \<exists>log' rs. as_completed_loop tasks order results log = (log', Inr rs)"
proof (induction order arbitrary: results log)
  case Nil
  then show ?case by simp
next
  case (Cons i order)
  show ?case
  proof (cases "i < length tasks")
    case False
    with Cons show ?thesis by simp
  next
    case True
    with Cons.prems have fs: "failed (tasks ! i) \<or> succeeded (tasks ! i)" by simp
    from Cons.prems have rest:
      "\<forall>i\<in>set order. i < length tasks \<longrightarrow> failed (tasks ! i) \<or> succeeded (tasks ! i)"
      by simp
    show ?thesis
    proof (cases "tasks ! i")
      case (Inl e)
      with fs show ?thesis by simp
    next
      case (Inr r)
      with True Cons.IH [OF rest] show ?thesis by (cases r) simp_all
    qed
  qed
qed

lemma loop_events:
  "\<exists>js. fst (as_completed_loop tasks order results log)
          = log @ map (\<lambda>i. Completed i (projr (tasks ! i))) js"
proof (induction order arbitrary: results log)
  case Nil
  then show ?case by simp
next
  case (Cons i order)
  show ?case
  proof (cases "i < length tasks")
    case False
    with Cons show ?thesis by simp
  next
    case True
    show ?thesis
    proof (cases "tasks ! i")
      case (Inl e)
      with True show ?thesis by simp
    next
      case (Inr r)
      obtain js where
        "fst (as_completed_loop tasks order (results @ texts [tasks ! i]) (log @ [Completed i r]))
          = (log @ [Completed i r]) @ map (\<lambda>i. Completed i (projr (tasks ! i))) js"
        using Cons.IH by blast
      with True Inr
      have "fst (as_completed_loop tasks (i # order) results log)
          = log @ map (\<lambda>i. Completed i (projr (tasks ! i))) (i # js)"
        by (cases r) simp_all
      then show ?thesis by blast
    qed
  qed
qed

section \<open>Fan-out and aggregation\<close>

lemma length_outcomes: "length (outcomes v s plan) = length (searches plan)"
  by (simp add: outcomes_def create_tasks_def)

lemma perform_searches_loop:
  "perform_searches v s order plan
    = as_completed_loop (outcomes v s plan) order [] (concat (map fst (create_tasks v s plan)))"
  by (simp add: perform_searches_def outcomes_def Let_def)

lemma started_events:
  "concat (map fst (create_tasks v s plan))
    = map (\<lambda>(i, item). RunSearch i (search_input v item)) (enumerate 0 (searches plan))"
proof -
  have "map fst (create_tasks v s plan)
      = map (\<lambda>(i, item). [RunSearch i (search_input v item)]) (enumerate 0 (searches plan))"
    by (simp add: create_tasks_def search_events split_def)
  then show ?thesis by (simp add: split_def)
qed

lemma order_in_range:
  assumes "mset order = mset [0..<n]"
  shows "filter (\<lambda>i. i < n) order = order" and "set order = {0..<n}"
proof -
  from assms have "set_mset (mset order) = set_mset (mset [0..<n])" by simp
  then show "set order = {0..<n}" by simp
  then show "filter (\<lambda>i. i < n) order = order" by (simp add: filter_id_conv)
qed

lemma mset_results_in_order:
  assumes "mset order = mset [0..<length tasks]"
  shows "mset (map (\<lambda>i. tasks ! i) order) = mset tasks"
proof -
  have "mset (map (\<lambda>i. tasks ! i) order) = image_mset (\<lambda>i. tasks ! i) (mset order)" by simp
  also have "\<dots> = mset (map (\<lambda>i. tasks ! i) [0..<length tasks])" using assms by simp
  also have "\<dots> = mset tasks" by (simp add: map_nth)
  finally show ?thesis .
qed

lemma mset_texts: "mset (texts rs) = image_mset (\<lambda>r. the (projr r)) (filter_mset succeeded (mset rs))"
  by (simp add: texts_map_filter)

lemma length_filter_mset: "length (filter P xs) = size (filter_mset P (mset xs))"
  by (metis mset_filter size_mset)

lemma perform_searches_returns:
  assumes perm: "mset order = mset [0..<length (searches plan)]"
      and fs: "\<forall>r\<in>set (outcomes v s plan). failed r \<or> succeeded r"
  shows "perform_searches v s order plan
     = (concat (map fst (create_tasks v s plan))
          @ map (\<lambda>i. Completed i (projr (outcomes v s plan ! i))) order,
        Inr (texts (map (\<lambda>i. outcomes v s plan ! i) order)))"
proof -
  let ?tasks = "outcomes v s plan"
  from perm have perm': "mset order = mset [0..<length ?tasks]" by (simp add: length_outcomes)
  have "\<forall>i\<in>set order. i < length ?tasks \<longrightarrow> failed (?tasks ! i) \<or> succeeded (?tasks ! i)"
    using fs by simp
  then obtain log' rs where
    eq: "as_completed_loop ?tasks order [] (concat (map fst (create_tasks v s plan))) = (log', Inr rs)"
    using loop_total by blast
  from loop_returns [OF eq] order_in_range(1) [OF perm'] eq show ?thesis
    by (simp add: perform_searches_loop)
qed

text \<open>
  Claim C1. A batch of \<open>N\<close> items, each of which fails or succeeds, \<open>M\<close> of them failing:
  under every completion order \<^verbatim>\<open>perform_searches\<close> returns a list, and its length is
  \<open>N - M\<close>, the number of successes. With \<open>M = N\<close> the list is empty and with \<open>M = 0\<close> it
  has \<open>N\<close> elements.
\<close>

theorem perform_searches_length:
  assumes "mset order = mset [0..<length (searches plan)]"
      and "\<forall>r\<in>set (outcomes v s plan). failed r \<or> succeeded r"
  shows "\<exists>rs. snd (perform_searches v s order plan) = Inr rs
          \<and> length rs = length (searches plan) - length (filter failed (outcomes v s plan))
          \<and> length rs = length (filter succeeded (outcomes v s plan))"
proof -
  let ?tasks = "outcomes v s plan"
  let ?rs = "texts (map (\<lambda>i. ?tasks ! i) order)"
  from assms(1) have perm: "mset order = mset [0..<length ?tasks]" by (simp add: length_outcomes)
  have "length ?rs = size (filter_mset succeeded (mset (map (\<lambda>i. ?tasks ! i) order)))"
    by (simp only: length_texts length_filter_mset)
  also have "\<dots> = length (filter succeeded ?tasks)"
    by (simp only: mset_results_in_order [OF perm] length_filter_mset)
  finally have len: "length ?rs = length (filter succeeded ?tasks)" .
  moreover from failed_or_succeeded_count [OF assms(2)]
  have "length (filter succeeded ?tasks) = length (searches plan) - length (filter failed ?tasks)"
    by (simp add: length_outcomes)
  moreover have "snd (perform_searches v s order plan) = Inr ?rs"
    by (simp add: perform_searches_returns [OF assms])
  ultimately show ?thesis by simp
qed

text \<open>
  Claim C8. For a batch in which every item fails or succeeds, any two completion orders give
  result lists with the same elements (as a set, and with the same multiplicities); the
  order of the lists may differ.
\<close>

theorem perform_searches_order_independent:
  assumes "mset order1 = mset [0..<length (searches plan)]"
      and "mset order2 = mset [0..<length (searches plan)]"
      and "\<forall>r\<in>set (outcomes v s plan). failed r \<or> succeeded r"
  shows "\<exists>rs1 rs2. snd (perform_searches v s order1 plan) = Inr rs1
          \<and> snd (perform_searches v s order2 plan) = Inr rs2
          \<and> set rs1 = set rs2 \<and> mset rs1 = mset rs2"
proof -
  let ?tasks = "outcomes v s plan"
  let ?rs1 = "texts (map (\<lambda>i. ?tasks ! i) order1)"
  let ?rs2 = "texts (map (\<lambda>i. ?tasks ! i) order2)"
  from assms(1) have p1: "mset order1 = mset [0..<length ?tasks]" by (simp add: length_outcomes)
  from assms(2) have p2: "mset order2 = mset [0..<length ?tasks]" by (simp add: length_outcomes)
  have m: "mset ?rs1 = mset ?rs2"
    by (simp only: mset_texts mset_results_in_order [OF p1] mset_results_in_order [OF p2])
  then have "set ?rs1 = set ?rs2" by (rule mset_eq_setD)
  moreover have "snd (perform_searches v s order1 plan) = Inr ?rs1"
    by (simp add: perform_searches_returns [OF assms(1) assms(3)])
  moreover have "snd (perform_searches v s order2 plan) = Inr ?rs2"
    by (simp add: perform_searches_returns [OF assms(2) assms(3)])
  ultimately show ?thesis using m by simp
qed

lemma svc_outcomes:
  "outcomes v svc plan3 = [Inr (Some ''r0''), Inr None, Inr (Some ''r2'')]"
  by (simp add: outcomes_def create_tasks_def search_def svc_def plan3_def Let_def)

lemma order_201: "mset [2, 0, 1] = mset [0..<length (searches plan3)]"
  by (simp add: plan3_def upt_rec)

lemma svc_perform_201:
  "snd (perform_searches v svc [2, 0, 1] plan3) = Inr [''r2'', ''r0'']"
  by (simp add: perform_searches_loop svc_outcomes)

lemma svc_perform_021:
  "snd (perform_searches v svc [0, 2, 1] plan3) = Inr [''r0'', ''r2'']"
  by (simp add: perform_searches_loop svc_outcomes)

lemma order_021: "mset [0, 2, 1] = mset [0..<length (searches plan3)]"
  by (simp add: plan3_def upt_rec)

text \<open>Three items, the second failing, completing in the order 2, 0, 1: two results.\<close>

theorem perform_searches_length_witness:
  "mset [2, 0, 1] = mset [0..<length (searches plan3)]
   \<and> outcomes Deep_research svc plan3 = [Inr (Some ''r0''), Inr None, Inr (Some ''r2'')]
   \<and> snd (perform_searches Deep_research svc [2, 0, 1] plan3) = Inr [''r2'', ''r0'']
   \<and> length [''r2'', ''r0'']
       = length (searches plan3) - length (filter failed (outcomes Deep_research svc plan3))"
proof -
  have fs: "\<forall>r\<in>set (outcomes Deep_research svc plan3). failed r \<or> succeeded r"
    by (simp add: svc_outcomes)
  from perform_searches_length [OF order_201 fs] obtain rs where
    rs: "snd (perform_searches Deep_research svc [2, 0, 1] plan3) = Inr rs"
    and len: "length rs
       = length (searches plan3) - length (filter failed (outcomes Deep_research svc plan3))"
    by blast
  from rs svc_perform_201 [of Deep_research] have "rs = [''r2'', ''r0'']" by simp
  with len have "length [''r2'', ''r0'']
       = length (searches plan3) - length (filter failed (outcomes Deep_research svc plan3))"
    by simp
  with order_201 svc_outcomes svc_perform_201 show ?thesis by blast
qed

text \<open>Two completion orders of the same batch: the same two texts, in different orders.\<close>

theorem perform_searches_order_independent_witness:
  "mset [2, 0, 1] = mset [0..<length (searches plan3)]
   \<and> mset [0, 2, 1] = mset [0..<length (searches plan3)]
   \<and> outcomes Training svc plan3 = [Inr (Some ''r0''), Inr None, Inr (Some ''r2'')]
   \<and> snd (perform_searches Training svc [2, 0, 1] plan3) = Inr [''r2'', ''r0'']
   \<and> snd (perform_searches Training svc [0, 2, 1] plan3) = Inr [''r0'', ''r2'']
   \<and> set [''r2'', ''r0''] = set [''r0'', ''r2'']
   \<and> mset [''r2'', ''r0''] = mset [''r0'', ''r2'']"
proof -
  have fs: "\<forall>r\<in>set (outcomes Training svc plan3). failed r \<or> succeeded r"
    by (simp add: svc_outcomes)
  from perform_searches_order_independent [OF order_201 order_021 fs] obtain rs1 rs2 where
    rs1: "snd (perform_searches Training svc [2, 0, 1] plan3) = Inr rs1"
    and rs2: "snd (perform_searches Training svc [0, 2, 1] plan3) = Inr rs2"
    and eq: "set rs1 = set rs2" "mset rs1 = mset rs2"
    by blast
  from rs1 svc_perform_201 [of Training] have r1: "rs1 = [''r2'', ''r0'']" by simp
  from rs2 svc_perform_021 [of Training] have r2: "rs2 = [''r0'', ''r2'']" by simp
  from eq have "set [''r2'', ''r0''] = set [''r0'', ''r2'']"
    and "mset [''r2'', ''r0''] = mset [''r0'', ''r2'']"
    unfolding r1 r2 by blast+
  with order_201 order_021 svc_outcomes svc_perform_201 svc_perform_021 show ?thesis by blast
qed

section \<open>The stage pipeline\<close>

lemma plan_searches_eq:
  "plan_searches v s q = ([RunPlanner (planner_input q)], planner_agent s (planner_input q))"
  by (simp add: plan_searches_def split: sum.splits)

lemma run_planned:
  assumes "planner_agent s (planner_input q) = Inr plan"
      and "perform_searches v s order plan = (l2, Inr results)"
  shows "run v s order q =
     (let log2 = [Yield (trace_line (gen_trace_id s)), RunPlanner (planner_input q),
                  Yield (planned_msg v)] @ l2
                 @ [Yield (searched_msg v), RunWriter (writer_input v s q results)] in
      case writer_agent s (writer_input v s q results) of
        Inl e \<Rightarrow> (log2, Some e)
      | Inr report \<Rightarrow>
          (case email_agent s (markdown_report report) of
             Inl e \<Rightarrow> (log2 @ [Yield (written_msg v), RunEmail (markdown_report report)], Some e)
           | Inr u \<Rightarrow> (log2 @ [Yield (written_msg v), RunEmail (markdown_report report),
                               Yield (sent_msg v), Yield (markdown_report report)], None)))"
  using assms
  by (simp add: run_def plan_searches_eq write_report_def send_email_def Let_def
           split: sum.splits)

lemma run_search_raised:
  assumes "planner_agent s (planner_input q) = Inr plan"
      and "perform_searches v s order plan = (l2, Inl e)"
  shows "run v s order q =
     ([Yield (trace_line (gen_trace_id s)), RunPlanner (planner_input q),
       Yield (planned_msg v)] @ l2, Some e)"
  using assms by (simp add: run_def plan_searches_eq Let_def)

lemma run_plan_raised:
  assumes "planner_agent s (planner_input q) = Inl e"
  shows "run v s order q =
     ([Yield (trace_line (gen_trace_id s)), RunPlanner (planner_input q)], Some e)"
  using assms by (simp add: run_def plan_searches_eq Let_def)

lemma before_first:
  "xs @ a # ys = pre @ b # post \<Longrightarrow> b \<notin> set xs \<Longrightarrow> set xs \<subseteq> set pre"
proof (induction xs arbitrary: pre)
  case Nil
  then show ?case by simp
next
  case (Cons x xs)
  then show ?case by (cases pre) auto
qed

text \<open>
  Claim C9, as amended. \<^verbatim>\<open>plan_searches\<close> hands on what the external planning call does:
  it raises what the call raises (an output that is not a \<^verbatim>\<open>WebSearchPlan\<close> is an exception
  of the call), and it returns the plan the call returns, with no check of its own on the
  list of searches.
\<close>

theorem plan_searches_passes_plan_on:
  "snd (plan_searches v s q) = planner_agent s (planner_input q)"
  by (simp add: plan_searches_eq)

text \<open>
  Claim C9, as stated, fails: when the planner answers with an empty list of searches,
  \<^verbatim>\<open>plan_searches\<close> returns that plan.
\<close>

theorem plan_searches_returns_empty_plan:
  "planner_agent (svc\<lparr>planner_agent := (\<lambda>p. Inr \<lparr>searches = []\<rparr>)\<rparr>) (planner_input ''q'')
     = Inr \<lparr>searches = []\<rparr>
   \<and> snd (plan_searches Deep_research (svc\<lparr>planner_agent := (\<lambda>p. Inr \<lparr>searches = []\<rparr>)\<rparr>) ''q'')
     = Inr \<lparr>searches = []\<rparr>
   \<and> searches \<lparr>searches = []\<rparr> = []"
  by (simp add: plan_searches_eq)

text \<open>
  Claim C5, as amended. If the external planning call raises, the run ends with that
  exception after the planning call: no search is started, the writer is not called, no
  report exists, and the only element on the progress stream is the trace line, which was
  yielded before planning. The exception reaches the consumer of the stream as an exception,
  not as an element.
\<close>

theorem run_aborts_when_planning_raises:
  "planner_agent s (planner_input q) = Inl e
    \<Longrightarrow> run v s order q
        = ([Yield (trace_line (gen_trace_id s)), RunPlanner (planner_input q)], Some e)
      \<and> yields (fst (run v s order q)) = [trace_line (gen_trace_id s)]"
  by (simp add: run_plan_raised)

text \<open>
  The planner raises: the run is the trace line, the planning call, and the exception.
\<close>

theorem run_aborts_when_planning_raises_witness:
  "planner_agent (svc\<lparr>planner_agent := (\<lambda>p. Inl (Exception ''boom''))\<rparr>) (planner_input ''q'')
     = Inl (Exception ''boom'')
   \<and> run Deep_research (svc\<lparr>planner_agent := (\<lambda>p. Inl (Exception ''boom''))\<rparr>) [0, 1, 2] ''q''
     = ([Yield (trace_line ''t1''), RunPlanner (planner_input ''q'')], Some (Exception ''boom''))
   \<and> yields (fst (run Deep_research (svc\<lparr>planner_agent := (\<lambda>p. Inl (Exception ''boom''))\<rparr>) [0, 1, 2] ''q''))
     = [trace_line ''t1'']"
  using run_aborts_when_planning_raises
    [of "svc\<lparr>planner_agent := (\<lambda>p. Inl (Exception ''boom''))\<rparr>" "''q''" "Exception ''boom''"
        Deep_research "[0, 1, 2]"]
  by (simp add: svc_def)

text \<open>
  Claim C5, as stated, fails: after a planning failure the progress stream holds the
  trace line only; no error event was yielded on it.
\<close>

theorem planning_failure_yields_no_error_event:
  "snd (run Deep_research (svc\<lparr>planner_agent := (\<lambda>p. Inl (Exception ''boom''))\<rparr>) [0, 1, 2] ''q'')
     = Some (Exception ''boom'')
   \<and> yields (fst (run Deep_research (svc\<lparr>planner_agent := (\<lambda>p. Inl (Exception ''boom''))\<rparr>) [0, 1, 2] ''q''))
     = [''View trace: https://platform.openai.com/traces/trace?trace_id=t1'']"
  by (simp add: run_plan_raised svc_def trace_line_def)

lemma yields_started: "yields (map (\<lambda>(i, item). RunSearch i (f item)) xs) = []"
  by (induction xs) auto

lemma yields_completed: "yields (map (\<lambda>i. Completed i (g i)) js) = []"
  by (induction js) auto

lemma perform_searches_events:
  "\<exists>js. fst (perform_searches v s order plan)
     = map (\<lambda>(i, item). RunSearch i (search_input v item)) (enumerate 0 (searches plan))
       @ map (\<lambda>i. Completed i (projr (outcomes v s plan ! i))) js"
  using loop_events [of "outcomes v s plan" order "[]" "concat (map fst (create_tasks v s plan))"]
  by (simp add: perform_searches_loop started_events)

lemma perform_searches_yields_nothing: "yields (fst (perform_searches v s order plan)) = []"
proof -
  obtain js where "fst (perform_searches v s order plan)
     = map (\<lambda>(i, item). RunSearch i (search_input v item)) (enumerate 0 (searches plan))
       @ map (\<lambda>i. Completed i (projr (outcomes v s plan ! i))) js"
    using perform_searches_events by blast
  then show ?thesis by (simp add: yields_append yields_started yields_completed)
qed

lemma perform_searches_no_writer: "RunWriter inp \<notin> set (fst (perform_searches v s order plan))"
proof -
  obtain js where "fst (perform_searches v s order plan)
     = map (\<lambda>(i, item). RunSearch i (search_input v item)) (enumerate 0 (searches plan))
       @ map (\<lambda>i. Completed i (projr (outcomes v s plan ! i))) js"
    using perform_searches_events by blast
  then show ?thesis by auto
qed

text \<open>
  Claim C4. A run that ends without an exception went through all four stages, and its last
  event is the yield of \<^verbatim>\<open>report.markdown_report\<close>, the report being the one the writer
  returned: the progress stream is not empty and its last element is that text.
\<close>

theorem run_final_element:
  assumes "snd (run v s order q) = None"
  shows "\<exists>plan results report.
           planner_agent s (planner_input q) = Inr plan
         \<and> snd (perform_searches v s order plan) = Inr results
         \<and> writer_agent s (writer_input v s q results) = Inr report
         \<and> fst (run v s order q) \<noteq> []
         \<and> last (fst (run v s order q)) = Yield (markdown_report report)
         \<and> yields (fst (run v s order q)) \<noteq> []
         \<and> last (yields (fst (run v s order q))) = markdown_report report"
proof (cases "planner_agent s (planner_input q)")
  case (Inl e)
  with assms show ?thesis by (simp add: run_plan_raised)
next
  case (Inr plan)
  obtain l2 r2 where ps: "perform_searches v s order plan = (l2, r2)" by (cases "perform_searches v s order plan")
  show ?thesis
  proof (cases r2)
    case (Inl e)
    with assms Inr ps show ?thesis by (simp add: run_search_raised)
  next
    case results: (Inr results)
    note rp = run_planned [OF Inr ps [unfolded results]]
    show ?thesis
    proof (cases "writer_agent s (writer_input v s q results)")
      case (Inl e)
      with assms rp show ?thesis by (simp add: Let_def)
    next
      case report: (Inr report)
      show ?thesis
      proof (cases "email_agent s (markdown_report report)")
        case (Inl e)
        with assms rp report show ?thesis by (simp add: Let_def)
      next
        case sent: (Inr u)
        from rp report sent
        have "fst (run v s order q) \<noteq> []"
          and "last (fst (run v s order q)) = Yield (markdown_report report)"
          and "yields (fst (run v s order q)) \<noteq> []"
          and "last (yields (fst (run v s order q))) = markdown_report report"
          by (simp_all add: Let_def yields_append)
        with Inr ps results report show ?thesis by simp
      qed
    qed
  qed
qed

lemma svc_perform:
  "search_agent s = search_agent svc \<Longrightarrow>
   perform_searches v s [2, 0, 1] plan3
    = ([RunSearch 0 (search_input v item1), RunSearch 1 (search_input v item2),
        RunSearch 2 (search_input v item3),
        Completed 2 (Some ''r2''), Completed 0 (Some ''r0''), Completed 1 None],
       Inr [''r2'', ''r0''])"
  by (simp add: perform_searches_def create_tasks_def search_def svc_def plan3_def Let_def)

lemma svc_run:
  "run v svc [2, 0, 1] ''q''
    = ([Yield (trace_line ''t1''), RunPlanner (planner_input ''q''), Yield (planned_msg v),
        RunSearch 0 (search_input v item1), RunSearch 1 (search_input v item2),
        RunSearch 2 (search_input v item3),
        Completed 2 (Some ''r2''), Completed 0 (Some ''r0''), Completed 1 None,
        Yield (searched_msg v), RunWriter (writer_input v svc ''q'' [''r2'', ''r0'']),
        Yield (written_msg v), RunEmail ''# R'', Yield (sent_msg v), Yield ''# R''],
       None)"
proof -
  have "planner_agent svc (planner_input ''q'') = Inr plan3" by (simp add: svc_def)
  from run_planned [OF this svc_perform [OF refl]] show ?thesis
    by (simp add: svc_def report1_def Let_def)
qed

text \<open>
  The example run ends without an exception and its last element is the report's text.
\<close>

theorem run_final_element_witness:
  "snd (run Deep_research svc [2, 0, 1] ''q'') = None
   \<and> writer_agent svc (writer_input Deep_research svc ''q'' [''r2'', ''r0'']) = Inr report1
   \<and> markdown_report report1 = ''# R''
   \<and> last (fst (run Deep_research svc [2, 0, 1] ''q'')) = Yield ''# R''
   \<and> last (yields (fst (run Deep_research svc [2, 0, 1] ''q''))) = ''# R''"
  using run_final_element [of Deep_research svc "[2, 0, 1]" "''q''"]
  unfolding svc_run by (simp add: svc_def report1_def)

lemma svc_mail_down_run:
  "run v svc_mail_down [2, 0, 1] ''q''
    = ([Yield (trace_line ''t1''), RunPlanner (planner_input ''q''), Yield (planned_msg v),
        RunSearch 0 (search_input v item1), RunSearch 1 (search_input v item2),
        RunSearch 2 (search_input v item3),
        Completed 2 (Some ''r2''), Completed 0 (Some ''r0''), Completed 1 None,
        Yield (searched_msg v), RunWriter (writer_input v svc_mail_down ''q'' [''r2'', ''r0'']),
        Yield (written_msg v), RunEmail ''# R''],
       Some (Exception ''smtp''))"
proof -
  have p: "planner_agent svc_mail_down (planner_input ''q'') = Inr plan3"
    by (simp add: svc_mail_down_def svc_def)
  have s: "search_agent svc_mail_down = search_agent svc" by (simp add: svc_mail_down_def)
  from run_planned [OF p svc_perform [OF s]] show ?thesis
    by (simp add: svc_mail_down_def svc_def report1_def Let_def)
qed

text \<open>
  Claim C7, as stated, fails: the notification call is attempted and raises, and the
  progress stream of that run holds the trace line and three status lines; the report's
  text \<open>''# R''\<close> is not among them.
\<close>

theorem notification_failure_withholds_report:
  "RunEmail ''# R'' \<in> set (fst (run Deep_research svc_mail_down [2, 0, 1] ''q''))
   \<and> snd (run Deep_research svc_mail_down [2, 0, 1] ''q'') = Some (Exception ''smtp'')
   \<and> yields (fst (run Deep_research svc_mail_down [2, 0, 1] ''q''))
      = [''View trace: https://platform.openai.com/traces/trace?trace_id=t1'',
         ''Searches planned, starting to search...'',
         ''Searches complete, writing report...'',
         ''Report written, sending email...'']
   \<and> ''# R'' \<notin> set (yields (fst (run Deep_research svc_mail_down [2, 0, 1] ''q'')))"
  unfolding svc_mail_down_run by (simp add: trace_line_def)

text \<open>
  Claim C7, as amended. When the notification call is attempted the report has been produced
  by the writer, and the progress stream has carried the trace line and the three status
  lines of the earlier stages. The report's text is yielded after the notification call has
  returned, as the last element of the stream; if the notification call raises, the run ends
  with that exception and yields nothing more.
\<close>

theorem report_emitted_after_notification:
  assumes "planner_agent s (planner_input q) = Inr plan"
      and "perform_searches v s order plan = (l2, Inr results)"
      and "writer_agent s (writer_input v s q results) = Inr report"
  shows "run v s order q =
          (case email_agent s (markdown_report report) of
             Inl e \<Rightarrow>
               ([Yield (trace_line (gen_trace_id s)), RunPlanner (planner_input q),
                 Yield (planned_msg v)] @ l2
                @ [Yield (searched_msg v), RunWriter (writer_input v s q results),
                   Yield (written_msg v), RunEmail (markdown_report report)],
                Some e)
           | Inr u \<Rightarrow>
               ([Yield (trace_line (gen_trace_id s)), RunPlanner (planner_input q),
                 Yield (planned_msg v)] @ l2
                @ [Yield (searched_msg v), RunWriter (writer_input v s q results),
                   Yield (written_msg v), RunEmail (markdown_report report),
                   Yield (sent_msg v), Yield (markdown_report report)],
                None))
       \<and> yields ([Yield (trace_line (gen_trace_id s)), RunPlanner (planner_input q),
                   Yield (planned_msg v)] @ l2
                  @ [Yield (searched_msg v), RunWriter (writer_input v s q results),
                     Yield (written_msg v)])
          = [trace_line (gen_trace_id s), planned_msg v, searched_msg v, written_msg v]"
proof -
  from assms(2) have "yields l2 = []"
    using perform_searches_yields_nothing [of v s order plan] by simp
  then show ?thesis
    using run_planned [OF assms(1) assms(2)] assms(3)
    by (simp add: Let_def yields_append split: sum.splits)
qed

text \<open>
  With a notification service that raises, the run ends with its exception after four
  yielded elements.
\<close>

theorem report_emitted_after_notification_witness:
  "planner_agent svc_mail_down (planner_input ''q'') = Inr plan3
   \<and> snd (perform_searches Training svc_mail_down [2, 0, 1] plan3) = Inr [''r2'', ''r0'']
   \<and> writer_agent svc_mail_down (writer_input Training svc_mail_down ''q'' [''r2'', ''r0'']) = Inr report1
   \<and> email_agent svc_mail_down (markdown_report report1) = Inl (Exception ''smtp'')
   \<and> snd (run Training svc_mail_down [2, 0, 1] ''q'') = Some (Exception ''smtp'')
   \<and> yields (fst (run Training svc_mail_down [2, 0, 1] ''q''))
      = [trace_line ''t1'', planned_msg Training, searched_msg Training, written_msg Training]"
proof -
  have p: "planner_agent svc_mail_down (planner_input ''q'') = Inr plan3"
    by (simp add: svc_mail_down_def svc_def)
  have s: "search_agent svc_mail_down = search_agent svc" by (simp add: svc_mail_down_def)
  have w: "writer_agent svc_mail_down (writer_input Training svc_mail_down ''q'' [''r2'', ''r0''])
            = Inr report1"
    by (simp add: svc_mail_down_def svc_def)
  have e: "email_agent svc_mail_down (markdown_report report1) = Inl (Exception ''smtp'')"
    by (simp add: svc_mail_down_def)
  have g: "gen_trace_id svc_mail_down = ''t1''" by (simp add: svc_mail_down_def svc_def)
  have ps: "snd (perform_searches Training svc_mail_down [2, 0, 1] plan3) = Inr [''r2'', ''r0'']"
    unfolding svc_perform [OF s] by simp
  from report_emitted_after_notification [OF p svc_perform [OF s] w]
  have "snd (run Training svc_mail_down [2, 0, 1] ''q'') = Some (Exception ''smtp'')"
    and "yields (fst (run Training svc_mail_down [2, 0, 1] ''q''))
      = [trace_line ''t1'', planned_msg Training, searched_msg Training, written_msg Training]"
    unfolding e g by (simp_all add: yields_append)
  with p w e ps show ?thesis by blast
qed

lemma perform_searches_joins_all:
  assumes "mset order = mset [0..<length (searches plan)]"
      and "perform_searches v s order plan = (l2, Inr results)"
      and "i < length (searches plan)"
  shows "Completed i (projr (outcomes v s plan ! i)) \<in> set l2"
proof -
  let ?tasks = "outcomes v s plan"
  from assms(1) have perm: "mset order = mset [0..<length ?tasks]" by (simp add: length_outcomes)
  from assms(2) have
    "as_completed_loop ?tasks order [] (concat (map fst (create_tasks v s plan))) = (l2, Inr results)"
    by (simp add: perform_searches_loop)
  from loop_returns [OF this] order_in_range(1) [OF perm]
  have "l2 = concat (map fst (create_tasks v s plan))
          @ map (\<lambda>i. Completed i (projr (?tasks ! i))) order"
    by simp
  moreover from order_in_range(2) [OF perm] assms(3) have "i \<in> set order"
    by (simp add: length_outcomes)
  ultimately show ?thesis by auto
qed

lemma run_planned_events:
  assumes "planner_agent s (planner_input q) = Inr plan"
      and "perform_searches v s order plan = (l2, Inr results)"
  shows "\<exists>ys. fst (run v s order q)
           = ([Yield (trace_line (gen_trace_id s)), RunPlanner (planner_input q),
               Yield (planned_msg v)] @ l2 @ [Yield (searched_msg v)])
             @ RunWriter (writer_input v s q results) # ys"
  using run_planned [OF assms] by (simp add: Let_def split: sum.splits)

text \<open>
  Claim C3. In a run whose tasks complete in some order (a permutation of the submitted
  items), every call of the writer comes after the loop of \<^verbatim>\<open>perform_searches\<close> has
  received a result, success or failure, for every submitted item.
\<close>

theorem synthesizing_after_join:
  assumes "planner_agent s (planner_input q) = Inr plan"
      and "mset order = mset [0..<length (searches plan)]"
      and "fst (run v s order q) = pre @ RunWriter inp # post"
  shows "\<forall>i<length (searches plan). \<exists>r. Completed i r \<in> set pre"
proof -
  obtain l2 r2 where ps: "perform_searches v s order plan = (l2, r2)"
    by (cases "perform_searches v s order plan")
  show ?thesis
  proof (cases r2)
    case (Inl e)
    from perform_searches_no_writer [of inp v s order plan] ps
    have "RunWriter inp \<notin> set l2" by simp
    with run_search_raised [OF assms(1) ps [unfolded Inl]]
    have "RunWriter inp \<notin> set (fst (run v s order q))" by simp
    with assms(3) show ?thesis by simp
  next
    case (Inr results)
    let ?xs = "[Yield (trace_line (gen_trace_id s)), RunPlanner (planner_input q),
                Yield (planned_msg v)] @ l2 @ [Yield (searched_msg v)]"
    from run_planned_events [OF assms(1) ps [unfolded Inr]] obtain ys where
      "fst (run v s order q) = ?xs @ RunWriter (writer_input v s q results) # ys"
      by blast
    with assms(3) have eq: "?xs @ RunWriter (writer_input v s q results) # ys
                              = pre @ RunWriter inp # post"
      by simp
    from perform_searches_no_writer [of inp v s order plan] ps
    have "RunWriter inp \<notin> set ?xs" by simp
    from before_first [OF eq this] have sub: "set l2 \<subseteq> set pre" by simp
    show ?thesis
    proof (intro allI impI)
      fix i assume "i < length (searches plan)"
      from perform_searches_joins_all [OF assms(2) ps [unfolded Inr] this] sub
      show "\<exists>r. Completed i r \<in> set pre" by blast
    qed
  qed
qed

text \<open>
  In the example run the events before the writer's call hold a result for the first and for
  the last item.
\<close>

theorem synthesizing_after_join_witness:
  "planner_agent svc (planner_input ''q'') = Inr plan3
   \<and> mset [2, 0, 1] = mset [0..<length (searches plan3)]
   \<and> fst (run Deep_research svc [2, 0, 1] ''q'')
      = [Yield (trace_line ''t1''), RunPlanner (planner_input ''q''), Yield (planned_msg Deep_research),
         RunSearch 0 (search_input Deep_research item1), RunSearch 1 (search_input Deep_research item2),
         RunSearch 2 (search_input Deep_research item3),
         Completed 2 (Some ''r2''), Completed 0 (Some ''r0''), Completed 1 None,
         Yield (searched_msg Deep_research)]
        @ RunWriter (writer_input Deep_research svc ''q'' [''r2'', ''r0''])
        # [Yield (written_msg Deep_research), RunEmail ''# R'', Yield (sent_msg Deep_research),
           Yield ''# R'']
   \<and> (\<exists>r. Completed 0 r \<in> set
        [Yield (trace_line ''t1''), RunPlanner (planner_input ''q''), Yield (planned_msg Deep_research),
         RunSearch 0 (search_input Deep_research item1), RunSearch 1 (search_input Deep_research item2),
         RunSearch 2 (search_input Deep_research item3),
         Completed 2 (Some ''r2''), Completed 0 (Some ''r0''), Completed 1 None,
         Yield (searched_msg Deep_research)])
   \<and> (\<exists>r. Completed 2 r \<in> set
        [Yield (trace_line ''t1''), RunPlanner (planner_input ''q''), Yield (planned_msg Deep_research),
         RunSearch 0 (search_input Deep_research item1), RunSearch 1 (search_input Deep_research item2),
         RunSearch 2 (search_input Deep_research item3),
         Completed 2 (Some ''r2''), Completed 0 (Some ''r0''), Completed 1 None,
         Yield (searched_msg Deep_research)])"
proof -
  have p: "planner_agent svc (planner_input ''q'') = Inr plan3" by (simp add: svc_def)
  have r: "fst (run Deep_research svc [2, 0, 1] ''q'')
      = [Yield (trace_line ''t1''), RunPlanner (planner_input ''q''), Yield (planned_msg Deep_research),
         RunSearch 0 (search_input Deep_research item1), RunSearch 1 (search_input Deep_research item2),
         RunSearch 2 (search_input Deep_research item3),
         Completed 2 (Some ''r2''), Completed 0 (Some ''r0''), Completed 1 None,
         Yield (searched_msg Deep_research)]
        @ RunWriter (writer_input Deep_research svc ''q'' [''r2'', ''r0''])
        # [Yield (written_msg Deep_research), RunEmail ''# R'', Yield (sent_msg Deep_research),
           Yield ''# R'']"
    unfolding svc_run by simp
  note all = synthesizing_after_join [OF p order_201 r]
  have l0: "0 < length (searches plan3)" and l2: "2 < length (searches plan3)"
    by (simp_all add: plan3_def)
  note c0 = mp [OF spec [OF all] l0] and c2 = mp [OF spec [OF all] l2]
  show ?thesis
    by (intro conjI) (rule p order_201 r c0 c2)+
qed

lemma texts_all_failed: "\<forall>r\<in>set rs. failed r \<Longrightarrow> texts rs = []"
proof (induction rs)
  case Nil
  then show ?case by simp
next
  case (Cons r rs)
  then show ?case by (cases r rule: failed.cases) auto
qed

lemma perform_searches_all_failed:
  assumes "\<forall>r\<in>set (outcomes v s plan). failed r"
  shows "snd (perform_searches v s order plan) = Inr []"
proof -
  let ?tasks = "outcomes v s plan"
  let ?log = "concat (map fst (create_tasks v s plan))"
  from assms have "\<forall>i\<in>set order. i < length ?tasks \<longrightarrow> failed (?tasks ! i) \<or> succeeded (?tasks ! i)"
    by simp
  then obtain log' rs where eq: "as_completed_loop ?tasks order [] ?log = (log', Inr rs)"
    using loop_total by blast
  from assms have "\<forall>r\<in>set (map (\<lambda>i. ?tasks ! i) (filter (\<lambda>i. i < length ?tasks) order)). failed r"
    by simp
  then have "texts (map (\<lambda>i. ?tasks ! i) (filter (\<lambda>i. i < length ?tasks) order)) = []"
    by (rule texts_all_failed)
  with loop_returns [OF eq] have "rs = []" by simp
  with eq show ?thesis by (simp add: perform_searches_loop)
qed

text \<open>
  Claim C6. If every item of the plan fails, \<^verbatim>\<open>perform_searches\<close> returns the empty list
  and raises nothing, the writer is called with the input built from the empty list, and,
  when the writer returns a report, the notification call is made; the run then ends
  without an exception unless the notification call raises.
\<close>

theorem total_search_failure_is_not_fatal:
  assumes "planner_agent s (planner_input q) = Inr plan"
      and "\<forall>r\<in>set (outcomes v s plan). failed r"
      and "writer_agent s (writer_input v s q []) = Inr report"
  shows "snd (perform_searches v s order plan) = Inr []
       \<and> RunWriter (writer_input v s q []) \<in> set (fst (run v s order q))
       \<and> RunEmail (markdown_report report) \<in> set (fst (run v s order q))
       \<and> snd (run v s order q)
          = (case email_agent s (markdown_report report) of Inl e \<Rightarrow> Some e | Inr u \<Rightarrow> None)"
proof -
  have ps: "snd (perform_searches v s order plan) = Inr []"
    using assms(2) by (rule perform_searches_all_failed)
  then obtain l2 where "perform_searches v s order plan = (l2, Inr [])"
    by (cases "perform_searches v s order plan") simp
  from run_planned [OF assms(1) this] assms(3) ps show ?thesis
    by (simp add: Let_def split: sum.splits)
qed

lemma svc_search_down_outcomes:
  "outcomes v svc_search_down plan3 = [Inr None, Inr None, Inr None]"
  by (simp add: outcomes_def create_tasks_def search_def svc_search_down_def plan3_def Let_def)

text \<open>
  Three planned searches, all failing: the run ends without an exception.
\<close>

theorem total_search_failure_is_not_fatal_witness:
  "planner_agent svc_search_down (planner_input ''q'') = Inr plan3
   \<and> outcomes Deep_research svc_search_down plan3 = [Inr None, Inr None, Inr None]
   \<and> writer_agent svc_search_down (writer_input Deep_research svc_search_down ''q'' []) = Inr report1
   \<and> email_agent svc_search_down (markdown_report report1) = Inr ()
   \<and> snd (perform_searches Deep_research svc_search_down [2, 0, 1] plan3) = Inr []
   \<and> RunWriter (writer_input Deep_research svc_search_down ''q'' [])
       \<in> set (fst (run Deep_research svc_search_down [2, 0, 1] ''q''))
   \<and> RunEmail (markdown_report report1) \<in> set (fst (run Deep_research svc_search_down [2, 0, 1] ''q''))
   \<and> snd (run Deep_research svc_search_down [2, 0, 1] ''q'') = None"
proof -
  have p: "planner_agent svc_search_down (planner_input ''q'') = Inr plan3"
    by (simp add: svc_search_down_def svc_def)
  have f: "\<forall>r\<in>set (outcomes Deep_research svc_search_down plan3). failed r"
    by (simp add: svc_search_down_outcomes)
  have w: "writer_agent svc_search_down (writer_input Deep_research svc_search_down ''q'' [])
            = Inr report1"
    by (simp add: svc_search_down_def svc_def)
  have e: "email_agent svc_search_down (markdown_report report1) = Inr ()"
    by (simp add: svc_search_down_def svc_def)
  from total_search_failure_is_not_fatal [OF p f w, of "[2, 0, 1]"]
  have "snd (perform_searches Deep_research svc_search_down [2, 0, 1] plan3) = Inr []"
    and "RunWriter (writer_input Deep_research svc_search_down ''q'' [])
       \<in> set (fst (run Deep_research svc_search_down [2, 0, 1] ''q''))"
    and "RunEmail (markdown_report report1) \<in> set (fst (run Deep_research svc_search_down [2, 0, 1] ''q''))"
    and "snd (run Deep_research svc_search_down [2, 0, 1] ''q'') = None"
    unfolding e by simp_all
  with p svc_search_down_outcomes w e show ?thesis by blast
qed

section \<open>The notification tool reports success\<close>

text \<open>
  Claim C10. Whenever the post call returns a response, whatever the response is,
  \<^verbatim>\<open>send_mail\<close> returns the dictionary \<^verbatim>\<open>{"status": "success"}\<close>.
\<close>

theorem send_mail_reports_success:
  "post \<lparr>from_email = ''federico.tognettigmail.com'', to_email = ''federico.tognetti@gmail.com'',
         subject = subj, content_type = ''text/html'', content_value = html_body\<rparr> = Inr response
    \<Longrightarrow> send_mail post subj html_body = Inr [''status'' \<mapsto> ''success'']"
  by (simp add: send_mail_def)

text \<open>
  A response that reports a rejected request (status 400) is answered with success.
\<close>

theorem send_mail_reports_success_witness:
  "(\<lambda>mail. Inr \<lparr>status_code = 400, body = ''Bad Request''\<rparr>)
      \<lparr>from_email = ''federico.tognettigmail.com'', to_email = ''federico.tognetti@gmail.com'',
       subject = ''Report'', content_type = ''text/html'', content_value = ''<p>x</p>''\<rparr>
     = (Inr \<lparr>status_code = 400, body = ''Bad Request''\<rparr> :: exn + Response)
   \<and> send_mail (\<lambda>mail. Inr \<lparr>status_code = 400, body = ''Bad Request''\<rparr>) ''Report'' ''<p>x</p>''
     = Inr [''status'' \<mapsto> ''success'']"
  using send_mail_reports_success
    [of "\<lambda>mail. Inr \<lparr>status_code = 400, body = ''Bad Request''\<rparr>" "''Report''" "''<p>x</p>''"
        "\<lparr>status_code = 400, body = ''Bad Request''\<rparr>"]
  by simp

end
